theory Spec2Isabelle
  imports Main "HOL-Library.Sublist" "HOL-Library.List_Lexorder"
begin

section \<open>Python strings\<close>

text \<open>
  A Python \<open>str\<close> is a sequence of Unicode code points, and \<open>len\<close>, \<open>find\<close>, \<open>in\<close>,
  \<open>strip\<close> and the \<open>re\<close> module all work on code points. A string is therefore
  modelled as a list of code points (\<open>nat\<close>); \<open>str ''...''\<close> writes an ASCII literal.
\<close>

type_synonym pystr = "nat list"

abbreviation str :: "string \<Rightarrow> pystr" where
  "str s \<equiv> map of_char s"

text \<open>
  \<open>str.isspace\<close> for one code point, which is also the class \<open>\s\<close> of a \<open>str\<close>
  pattern: the ASCII controls 9-13 and 28-31, the space, and the Unicode white space
  U+0085, U+00A0, U+1680, U+2000-U+200A, U+2028, U+2029, U+202F, U+205F, U+3000.
\<close>

definition isspace :: "nat \<Rightarrow> bool" where
  "isspace c =
     ((9 \<le> c \<and> c \<le> 13) \<or> (28 \<le> c \<and> c \<le> 32) \<or> c = 133 \<or> c = 160 \<or> c = 5760 \<or>
      (8192 \<le> c \<and> c \<le> 8202) \<or> c = 8232 \<or> c = 8233 \<or> c = 8239 \<or> c = 8287 \<or> c = 12288)"

text \<open>\<open>s.strip()\<close>: leading and trailing white space removed.\<close>

definition strip :: "pystr \<Rightarrow> pystr" where
  "strip s = rev (dropWhile isspace (rev (dropWhile isspace s)))"

text \<open>
  \<open>s.find(sub)\<close>: the lowest index at which \<open>sub\<close> occurs in \<open>s\<close>, or \<open>-1\<close>.
  \<open>first_index\<close> is the search itself, \<open>py_find\<close> gives Python's integer.
\<close>

fun first_index :: "pystr \<Rightarrow> pystr \<Rightarrow> nat option" where
  "first_index sub [] = (if sub = [] then Some 0 else None)"
| "first_index sub (c # cs) =
     (if prefix sub (c # cs) then Some 0 else map_option Suc (first_index sub cs))"

definition py_find :: "pystr \<Rightarrow> pystr \<Rightarrow> int" where
  "py_find s sub = (case first_index sub s of None \<Rightarrow> - 1 | Some i \<Rightarrow> int i)"

text \<open>\<open>sub in s\<close>: \<open>sub\<close> occurs somewhere in \<open>s\<close>.\<close>

fun py_in :: "pystr \<Rightarrow> pystr \<Rightarrow> bool" where
  "py_in sub [] = (sub = [])"
| "py_in sub (c # cs) = (prefix sub (c # cs) \<or> py_in sub cs)"

text \<open>\<open>s.endswith(suf)\<close>.\<close>

definition endswith :: "pystr \<Rightarrow> pystr \<Rightarrow> bool" where
  "endswith s suf = suffix suf s"

text \<open>
  \<open>f.readlines()\<close> on a file opened in text mode: the decoded text cut after every
  \<open>\n\<close> (code point 10), each line keeping its line end; a last line without one is
  kept as it is. The text is the one \<open>f.read()\<close> returns, after decoding and the
  translation of line ends.
\<close>

fun readlines :: "pystr \<Rightarrow> pystr list" where
  "readlines [] = []"
| "readlines (c # cs) =
     (if c = 10 then [c] # readlines cs
      else (case readlines cs of [] \<Rightarrow> [[c]] | l # ls \<Rightarrow> (c # l) # ls))"

text \<open>
  \<open>lines[a:b]\<close> for \<open>0 \<le> a\<close> and \<open>0 \<le> b\<close>: a slice never raises, it is cut to the
  list.
\<close>

definition py_slice :: "'a list \<Rightarrow> nat \<Rightarrow> nat \<Rightarrow> 'a list" where
  "py_slice xs a b = drop a (take b xs)"

section \<open>Regular expressions\<close>

text \<open>
  The fragment of Python's \<open>re\<close> that the patterns of the program use. \<open>paths r s\<close>
  lists every way in which \<open>r\<close> matches at the start of \<open>s\<close>, in the order in which
  the backtracking matcher tries them (an alternative left to right, a greedy
  repetition longest first, a lazy one shortest first); each way gives the texts of the
  groups that took part and the rest of \<open>s\<close>. \<open>pattern.match(s)\<close> is the first way.
\<close>

datatype regex =
    Lit pystr
  | Alt regex regex
  | Cat regex regex
  | Opt regex
  | Star "nat \<Rightarrow> bool"
  | Plus "nat \<Rightarrow> bool"
  | LazyStar "nat \<Rightarrow> bool"
  | Group regex

fun greedy :: "(nat \<Rightarrow> bool) \<Rightarrow> pystr \<Rightarrow> pystr list" where
  "greedy p [] = [[]]"
| "greedy p (c # cs) = (if p c then greedy p cs @ [c # cs] else [c # cs])"

fun paths :: "regex \<Rightarrow> pystr \<Rightarrow> (pystr list \<times> pystr) list" where
  "paths (Lit w) s = (if prefix w s then [([], drop (length w) s)] else [])"
| "paths (Alt a b) s = paths a s @ paths b s"
| "paths (Cat a b) s =
     concat (map (\<lambda>(g, r). map (\<lambda>(g', r'). (g @ g', r')) (paths b r)) (paths a s))"
| "paths (Opt a) s = paths a s @ [([], s)]"
| "paths (Star p) s = map (Pair []) (greedy p s)"
| "paths (Plus p) s =
     (case s of [] \<Rightarrow> [] | c # cs \<Rightarrow> if p c then map (Pair []) (greedy p cs) else [])"
| "paths (LazyStar p) s = map (Pair []) (rev (greedy p s))"
| "paths (Group a) s = map (\<lambda>(g, r). (take (length s - length r) s # g, r)) (paths a s)"

definition re_match :: "regex \<Rightarrow> pystr \<Rightarrow> pystr list option" where
  "re_match r s = (case paths r s of [] \<Rightarrow> None | (g, _) # _ \<Rightarrow> Some g)"

text \<open>
  The declaration keywords
  \<open>theorem|lemma|def|instance|example|opaque|abbrev|inductive|structure\<close>.
\<close>

definition decl_keyword :: regex where
  "decl_keyword =
     Alt (Lit (str ''theorem'')) (Alt (Lit (str ''lemma'')) (Alt (Lit (str ''def''))
     (Alt (Lit (str ''instance'')) (Alt (Lit (str ''example'')) (Alt (Lit (str ''opaque''))
     (Alt (Lit (str ''abbrev'')) (Alt (Lit (str ''inductive'')) (Lit (str ''structure'')))))))))"

text \<open>
  \<open>decl_regex\<close>:
  \<open>^(private|protected)?\s*(noncomputable)?\s*(theorem|...|structure)\s+\<close>.
  The program calls \<open>decl_regex.search(line)\<close>; without the multi-line flag \<open>^\<close>
  matches at the start of the text only, so the search succeeds exactly when the rest
  of the pattern matches there.
\<close>

definition decl_regex :: regex where
  "decl_regex =
     Cat (Opt (Group (Alt (Lit (str ''private'')) (Lit (str ''protected'')))))
    (Cat (Star isspace)
    (Cat (Opt (Group (Lit (str ''noncomputable''))))
    (Cat (Star isspace)
    (Cat (Group decl_keyword) (Plus isspace)))))"

definition decl_regex_search :: "pystr \<Rightarrow> bool" where
  "decl_regex_search line = (re_match decl_regex line \<noteq> None)"

text \<open>
  \<open>name_extract_regex\<close>: \<open>.*?(?:theorem|...|structure)\s+([^\s\(\{:]+)\<close>. The dot
  matches every code point but the newline; the name is a run of code points that are
  neither white space nor one of \<open>(\<close>, \<open>{\<close>, \<open>:\<close> (40, 123, 58).
\<close>

definition name_char :: "nat \<Rightarrow> bool" where
  "name_char c = (\<not> isspace c \<and> c \<noteq> 40 \<and> c \<noteq> 123 \<and> c \<noteq> 58)"

definition name_extract_regex :: regex where
  "name_extract_regex =
     Cat (LazyStar (\<lambda>c. c \<noteq> 10))
    (Cat decl_keyword
    (Cat (Plus isspace) (Group (Plus name_char))))"

text \<open>
  \<open>decl_name_match.group(1) if decl_name_match else ""\<close>, for
  \<open>decl_name_match = name_extract_regex.match(header)\<close>.
\<close>

definition decl_name_of :: "pystr \<Rightarrow> pystr" where
  "decl_name_of header =
     (case re_match name_extract_regex header of
        None \<Rightarrow> []
      | Some gs \<Rightarrow> (case gs of [] \<Rightarrow> [] | g # _ \<Rightarrow> g))"

text \<open>\<open>import_regex\<close>: \<open>^import\s+([^\s]+)\<close>, used with \<open>match\<close>.\<close>

definition import_regex :: regex where
  "import_regex =
     Cat (Lit (str ''import'')) (Cat (Plus isspace) (Group (Plus (\<lambda>c. \<not> isspace c))))"

section \<open>More of Python's library\<close>

text \<open>
  \<open>s.split(sep)\<close> for a separator of one code point: the pieces between the
  separators, empty pieces included; the result is never empty.
\<close>

fun split_on :: "nat \<Rightarrow> pystr \<Rightarrow> pystr list" where
  "split_on d [] = [[]]"
| "split_on d (c # cs) =
     (if c = d then [] # split_on d cs
      else (case split_on d cs of [] \<Rightarrow> [[c]] | p # ps \<Rightarrow> (c # p) # ps))"

text \<open>
  \<open>s.splitlines()\<close>: the lines without their line ends. A line ends at \<open>\n\<close>,
  \<open>\r\<close>, \<open>\r\n\<close>, \<open>\v\<close>, \<open>\f\<close>, \<open>\x1c\<close>, \<open>\x1d\<close>, \<open>\x1e\<close>, \<open>\x85\<close>,
  U+2028 or U+2029; a line end at the very end of the text opens no further line.
\<close>

definition is_linebreak :: "nat \<Rightarrow> bool" where
  "is_linebreak c =
     ((10 \<le> c \<and> c \<le> 13) \<or> (28 \<le> c \<and> c \<le> 30) \<or> c = 133 \<or> c = 8232 \<or> c = 8233)"

fun splitlines :: "pystr \<Rightarrow> pystr list" where
  "splitlines [] = []"
| "splitlines (c # cs) =
     (if c = 13 then
        (case cs of
           [] \<Rightarrow> [[]]
         | d # ds \<Rightarrow> if d = 10 then [] # splitlines ds else [] # splitlines cs)
      else if is_linebreak c then [] # splitlines cs
      else (case splitlines cs of [] \<Rightarrow> [[c]] | l # ls \<Rightarrow> (c # l) # ls))"

text \<open>
  \<open>os.path.join(a, *p)\<close> of \<open>posixpath\<close>: a component that starts with \<open>/\<close>
  replaces what came before it; otherwise it is appended, after a \<open>/\<close> unless the
  path so far is empty or ends with one.
\<close>

definition join2 :: "pystr \<Rightarrow> pystr \<Rightarrow> pystr" where
  "join2 path b =
     (if prefix (str ''/'') b then b
      else if path = [] \<or> suffix (str ''/'') path then path @ b
      else path @ str ''/'' @ b)"

definition path_join :: "pystr \<Rightarrow> pystr list \<Rightarrow> pystr" where
  "path_join a p = foldl join2 a p"

text \<open>
  \<open>str(n)\<close> for a natural number: its decimal digits.
\<close>

function str_nat :: "nat \<Rightarrow> pystr" where
  "str_nat n = (if n < 10 then [48 + n] else str_nat (n div 10) @ [48 + n mod 10])"
  by pat_completeness auto
termination
  by (relation "measure id") auto

declare str_nat.simps [simp del]

text \<open>
  The number of bytes of the UTF-8 encoding of a text: the size on disk of a file whose
  decoded content is that text (and which has no \<open>\r\n\<close> line ends, which decoding
  would shorten further).
\<close>

definition utf8_len :: "nat \<Rightarrow> nat" where
  "utf8_len c = (if c < 128 then 1 else if c < 2048 then 2 else if c < 65536 then 3 else 4)"

definition utf8_size :: "pystr \<Rightarrow> nat" where
  "utf8_size s = sum_list (map utf8_len s)"

section \<open>Errors and the file system\<close>

text \<open>
  The exceptions the program meets. \<open>SystemExit\<close> is raised by \<open>sys.exit\<close> and is
  not an \<open>Exception\<close>: a handler \<open>except Exception\<close> lets it pass.
\<close>

datatype py_error =
    OSError
  | UnicodeDecodeError
  | CalledProcessError pystr
  | SystemExit nat

fun is_Exception :: "py_error \<Rightarrow> bool" where
  "is_Exception (SystemExit _) = False"
| "is_Exception _ = True"

text \<open>
  \<open>open(path, 'r', encoding='utf-8')\<close> followed by \<open>read()\<close> or \<open>readlines()\<close>:
  an exception (\<open>OSError\<close> when the file cannot be opened, \<open>UnicodeDecodeError\<close>
  when it is not UTF-8; both are \<open>Exception\<close>s), or the decoded text.
\<close>

datatype file_read = Unreadable py_error | Text pystr

text \<open>
  What the import resolver asks of the platform. Of the file system:
  \<open>os.path.isdir\<close>, \<open>os.listdir\<close> (called only on a path for which \<open>isdir\<close>
  holds, and taken to return its listing), \<open>os.path.exists\<close>, and reading a file.
  Of Python: \<open>str.capitalize\<close>, which works with the case tables of Unicode (the
  first character in title case, the others in lower case); the tables are not in the
  program, so the function is taken as it is given.
\<close>

record platform =
  isdir :: "pystr \<Rightarrow> bool"
  listdir :: "pystr \<Rightarrow> pystr list"
  path_exists :: "pystr \<Rightarrow> bool"
  open_read :: "pystr \<Rightarrow> file_read"
  str_capitalize :: "pystr \<Rightarrow> pystr"

section \<open>The import resolver: \<open>find_and_read_imports\<close>\<close>

definition MAX_IMPORT_FILE_SIZE :: nat where
  "MAX_IMPORT_FILE_SIZE = 25000"

text \<open>
  Lines 57-63: \<open>package_map\<close>, from \<open>package_name.capitalize()\<close> for every entry
  of \<open>.lake/packages\<close> to that entry's path; a later entry with the same capitalized
  name replaces an earlier one, as the dictionary assignment does.
\<close>

definition lake_packages_path :: "pystr \<Rightarrow> pystr" where
  "lake_packages_path repo_root = path_join repo_root [str ''.lake'', str ''packages'']"

definition package_map :: "platform \<Rightarrow> pystr \<Rightarrow> (pystr \<rightharpoonup> pystr)" where
  "package_map fs repo_root =
     (if isdir fs (lake_packages_path repo_root) then
        fold (\<lambda>package_name m.
                m(str_capitalize fs package_name \<mapsto>
                  path_join (lake_packages_path repo_root) [package_name]))
          (listdir fs (lake_packages_path repo_root)) Map.empty
      else Map.empty)"

text \<open>
  Lines 71-73: \<open>relative_path = os.path.join(*import_parts) + '.lean'\<close>, where
  \<open>import_parts = import_path_str.split('.')\<close> (never empty).
\<close>

definition relative_path_of :: "pystr list \<Rightarrow> pystr" where
  "relative_path_of import_parts =
     (case import_parts of [] \<Rightarrow> [] | a # p \<Rightarrow> path_join a p) @ str ''.lean''"

text \<open>
  The truth value of \<open>full_path\<close>, which is \<open>None\<close> or a string: \<open>None\<close> and the
  empty string are false.
\<close>

fun truthy :: "pystr option \<Rightarrow> bool" where
  "truthy None = False"
| "truthy (Some p) = (p \<noteq> [])"

text \<open>
  Lines 70-94: the value of \<open>full_path\<close> for one import path. First the dependency
  package named by the first segment, then the project root, then its \<open>src\<close>
  directory.
\<close>

definition resolve_import :: "platform \<Rightarrow> (pystr \<rightharpoonup> pystr) \<Rightarrow> pystr \<Rightarrow> pystr \<Rightarrow> pystr option" where
  "resolve_import fs pmap repo_root import_path_str =
     (let import_parts = split_on 46 import_path_str;
          relative_path = relative_path_of import_parts;
          full_path =
            (case import_parts of
               [] \<Rightarrow> None
             | first # _ \<Rightarrow>
                 (case pmap first of
                    None \<Rightarrow> None
                  | Some package_root \<Rightarrow>
                      (let potential_path = path_join package_root [relative_path]
                       in if path_exists fs potential_path then Some potential_path else None)))
      in if \<not> truthy full_path then
           (let potential_path_root = path_join repo_root [relative_path]
            in if path_exists fs potential_path_root then Some potential_path_root
               else (let potential_path_src = path_join repo_root [str ''src'', relative_path]
                     in if path_exists fs potential_path_src then Some potential_path_src
                        else full_path))
         else full_path)"

text \<open>
  Lines 96-118: what one import path appends to \<open>imported_content\<close>: the labelled
  content of the resolved file when \<open>len(content) < MAX_IMPORT_FILE_SIZE\<close>, nothing
  when the file is larger or cannot be read (both only print a warning), the
  placeholder of the web search when nothing was resolved and the search is enabled.
\<close>

definition import_entry :: "platform \<Rightarrow> (pystr \<rightharpoonup> pystr) \<Rightarrow> pystr \<Rightarrow> bool \<Rightarrow> pystr \<Rightarrow> pystr list" where
  "import_entry fs pmap repo_root web_search import_path_str =
     (let full_path = resolve_import fs pmap repo_root import_path_str
      in if truthy full_path then
           (case full_path of
              None \<Rightarrow> []
            | Some path \<Rightarrow>
                (case open_read fs path of
                   Unreadable e \<Rightarrow> []
                 | Text content \<Rightarrow>
                     if length content < MAX_IMPORT_FILE_SIZE then
                       [str ''\<newline>---\<newline>-- Content from: '' @ import_path_str @
                        str ''\<newline>---\<newline>'' @ content]
                     else []))
         else if web_search then
           [str ''\<newline>---\<newline>-- Web search result for: '' @ import_path_str @ str ''\<newline>---\<newline>'' @
            str ''Content from web search for '' @ import_path_str]
         else [])"

text \<open>Lines 52-120: the loop over the lines of the file, and the final join.\<close>

definition find_and_read_imports :: "platform \<Rightarrow> pystr \<Rightarrow> pystr \<Rightarrow> bool \<Rightarrow> pystr" where
  "find_and_read_imports fs file_content repo_root web_search =
     (let pmap = package_map fs repo_root
      in concat (concat (map
           (\<lambda>line. case re_match import_regex line of
                      None \<Rightarrow> []
                    | Some gs \<Rightarrow>
                        (case gs of
                           [] \<Rightarrow> []
                         | import_path_str # _ \<Rightarrow>
                             import_entry fs pmap repo_root web_search import_path_str))
           (splitlines file_content))))"

section \<open>The scanner and the tree walker: \<open>find_all_sorries\<close>\<close>

text \<open>
  One entry of \<open>sorries_to_process\<close>: the dictionary built at lines 282-289, with its
  keys as fields.
\<close>

record obligation =
  file_path :: pystr
  line_num :: nat
  decl_name :: pystr
  snippet :: pystr
  full_content :: pystr
  imports_context :: pystr

text \<open>
  The variables of the walk: the declaration context of the file being read, the list
  of records, and a log of the calls of \<open>find_and_read_imports\<close> with their arguments
  (the log is not a variable of the program; it records the calls the program makes).
\<close>

record scan_state =
  current_decl_header :: pystr
  current_decl_linenum :: nat
  sorries_to_process :: "obligation list"
  resolver_calls :: "(pystr \<times> pystr \<times> bool) list"

definition marker :: pystr where
  "marker = str ''sorry''"

text \<open>
  Lines 270-272: \<open>comment_pos != -1 and sorry_pos > comment_pos\<close>, the test that sends
  a marker line to \<open>continue\<close>.
\<close>

definition in_comment :: "pystr \<Rightarrow> bool" where
  "in_comment line =
     (let comment_pos = py_find line (str ''--'');
          sorry_pos = py_find line marker
      in comment_pos \<noteq> - 1 \<and> sorry_pos > comment_pos)"

text \<open>
  Lines 262-289: the body of the loop over \<open>enumerate(lines)\<close>, for the pair
  \<open>(i, line)\<close>.
\<close>

definition scan_line ::
  "platform \<Rightarrow> pystr \<Rightarrow> bool \<Rightarrow> pystr \<Rightarrow> pystr list \<Rightarrow> pystr \<Rightarrow> nat \<times> pystr \<Rightarrow> scan_state \<Rightarrow> scan_state"
where
  "scan_line fs target_repo_path web_search path lines full_file_content il st =
     (let i = fst il; line = snd il;
          line_number = i + 1;
          st1 = (if decl_regex_search line
                 then st\<lparr>current_decl_header := strip line, current_decl_linenum := line_number\<rparr>
                 else st)
      in if py_in marker line then
           (if in_comment line then st1
            else
              (let decl_name_only = decl_name_of (current_decl_header st1);
                   start_line = (if current_decl_linenum st1 > 0 then current_decl_linenum st1
                                 else line_number);
                   full_snippet = concat (py_slice lines (start_line - 1) line_number);
                   context = find_and_read_imports fs full_file_content target_repo_path web_search
               in st1\<lparr>sorries_to_process := sorries_to_process st1 @
                         [\<lparr>file_path = path, line_num = line_number, decl_name = decl_name_only,
                           snippet = full_snippet, full_content = full_file_content,
                           imports_context = context\<rparr>],
                       resolver_calls := resolver_calls st1 @
                         [(full_file_content, target_repo_path, web_search)]\<rparr>))
         else st1)"

text \<open>
  Lines 254-289 for one file whose lines have been read: the declaration context is
  reset, \<open>full_file_content\<close> is the lines joined, and the loop runs over the numbered
  lines.
\<close>

definition scan_lines ::
  "platform \<Rightarrow> pystr \<Rightarrow> bool \<Rightarrow> pystr \<Rightarrow> pystr list \<Rightarrow> scan_state \<Rightarrow> scan_state"
where
  "scan_lines fs target_repo_path web_search path lines st =
     fold (scan_line fs target_repo_path web_search path lines (concat lines))
       (enumerate 0 lines)
       (st\<lparr>current_decl_header := [], current_decl_linenum := 0\<rparr>)"

definition empty_state :: scan_state where
  "empty_state =
     \<lparr>current_decl_header = [], current_decl_linenum = 0, sorries_to_process = [],
      resolver_calls = []\<rparr>"

text \<open>
  The directory tree below the search path as \<open>os.walk\<close> sees it: a directory lists
  its files, each with what reading it gives, and its sub-directories, in the order of
  the listing.
\<close>

datatype dir_tree =
  Dir (dir_files: "(pystr \<times> file_read) list") (dir_subdirs: "(pystr \<times> dir_tree) list")

text \<open>
  Lines 249-289: the loop over \<open>sorted(files)\<close> of one directory. A file whose name
  does not end in \<open>.lean\<close> is passed over. The file is opened and read outside any
  \<open>try\<close>: an exception leaves the function.
\<close>

fun walk_files ::
  "platform \<Rightarrow> pystr \<Rightarrow> bool \<Rightarrow> pystr \<Rightarrow> (pystr \<times> file_read) list \<Rightarrow> scan_state \<Rightarrow> py_error + scan_state"
where
  "walk_files fs target_repo_path web_search root [] st = Inr st"
| "walk_files fs target_repo_path web_search root ((file, content) # files) st =
     (if \<not> endswith file (str ''.lean'') then
        walk_files fs target_repo_path web_search root files st
      else
        (case content of
           Unreadable e \<Rightarrow> Inl e
         | Text text \<Rightarrow>
             walk_files fs target_repo_path web_search root files
               (scan_lines fs target_repo_path web_search (path_join root [file])
                  (readlines text) st)))"

text \<open>
  Lines 246-247: \<open>os.walk\<close>, top down. The files of a directory are visited in sorted
  order; then its sub-directories in the order of the listing, but for those named
  \<open>.lake\<close> or \<open>build\<close>, which the loop removes from \<open>dirs\<close> before the descent.
\<close>

fun os_walk ::
  "platform \<Rightarrow> pystr \<Rightarrow> bool \<Rightarrow> pystr \<Rightarrow> dir_tree \<Rightarrow> scan_state \<Rightarrow> py_error + scan_state"
and walk_dirs ::
  "platform \<Rightarrow> pystr \<Rightarrow> bool \<Rightarrow> pystr \<Rightarrow> (pystr \<times> dir_tree) list \<Rightarrow> scan_state \<Rightarrow> py_error + scan_state"
where
  "os_walk fs target_repo_path web_search root (Dir files dirs) st =
     (case walk_files fs target_repo_path web_search root (sort_key fst files) st of
        Inl e \<Rightarrow> Inl e
      | Inr st' \<Rightarrow> walk_dirs fs target_repo_path web_search root dirs st')"
| "walk_dirs fs target_repo_path web_search root [] st = Inr st"
| "walk_dirs fs target_repo_path web_search root ((d, sub) # dirs) st =
     (if d = str ''.lake'' \<or> d = str ''build'' then
        walk_dirs fs target_repo_path web_search root dirs st
      else
        (case os_walk fs target_repo_path web_search (path_join root [d]) sub st of
           Inl e \<Rightarrow> Inl e
         | Inr st' \<Rightarrow> walk_dirs fs target_repo_path web_search root dirs st'))"

text \<open>
  Lines 233-290: \<open>find_all_sorries(search_path, target_repo_path, web_search)\<close>, where
  \<open>tree\<close> is the directory at \<open>search_path\<close>: the list of records, or the exception
  that ended the walk. The walk reads the files of \<open>tree\<close>; the import resolver asks
  \<open>fs\<close>.
\<close>

definition find_all_sorries ::
  "platform \<Rightarrow> dir_tree \<Rightarrow> pystr \<Rightarrow> pystr \<Rightarrow> bool \<Rightarrow> py_error + obligation list"
where
  "find_all_sorries fs tree search_path target_repo_path web_search =
     (case os_walk fs target_repo_path web_search search_path tree empty_state of
        Inl e \<Rightarrow> Inl e
      | Inr st \<Rightarrow> Inr (sorries_to_process st))"

section \<open>The publisher: \<open>create_github_issue\<close> and \<open>process_sorries\<close>\<close>

text \<open>
  \<open>subprocess.run(command, check=True, capture_output=True, text=True)\<close>: the standard
  output of a command that exited with status 0, or \<open>CalledProcessError\<close> with the
  standard error of one that did not.
\<close>

datatype proc_result = Exited pystr | Failed pystr

text \<open>
  The GitHub command line against the remote store of issues, which is kept as the
  titles of its open issues: what \<open>gh issue list --search query\<close> and
  \<open>gh issue create --title title --body body --label label\<close> answer for a given
  store. A creation that succeeds adds the title to the store.
\<close>

record github =
  issue_list :: "pystr list \<Rightarrow> pystr \<Rightarrow> proc_result"
  issue_create :: "pystr list \<Rightarrow> pystr \<Rightarrow> pystr \<Rightarrow> pystr \<Rightarrow> proc_result"

text \<open>
  Lines 123-133: \<open>run_command\<close> returns the stripped output, and on
  \<open>CalledProcessError\<close> prints the error and calls \<open>sys.exit(1)\<close>.
\<close>

definition run_command :: "proc_result \<Rightarrow> py_error + pystr" where
  "run_command result =
     (case result of Exited out \<Rightarrow> Inr (strip out) | Failed err \<Rightarrow> Inl (SystemExit 1))"

text \<open>
  Line 206: \<open>f'"{{title}}" in:title repo:{repo_name} is:open'\<close>. In an f-string
  \<open>{{\<close> and \<open>}}\<close> are the braces themselves, so the text holds the seven characters
  \<open>{title}\<close> between the double quotes (code point 34), not the value of \<open>title\<close>.
\<close>

definition search_query :: "pystr \<Rightarrow> pystr \<Rightarrow> pystr" where
  "search_query title repo_name =
     [34] @ str ''{title}'' @ [34] @ str '' in:title repo:'' @ repo_name @ str '' is:open''"

datatype outcome = Skipped | Created | CreateFailed | Errored

text \<open>
  Lines 219-230: the creation. A failure is printed and the function returns.
\<close>

definition create_issue :: "github \<Rightarrow> pystr list \<Rightarrow> pystr \<Rightarrow> pystr \<Rightarrow> pystr \<Rightarrow> outcome \<times> pystr list" where
  "create_issue gh store title body label =
     (case issue_create gh store title body label of
        Exited out \<Rightarrow> (Created, store @ [title])
      | Failed err \<Rightarrow> (CreateFailed, store))"

text \<open>
  Lines 201-230: \<open>create_github_issue\<close>. The handler of lines 212-217 continues with
  the creation after a \<open>CalledProcessError\<close> of the search; any other exception of
  \<open>run_command\<close> leaves the function.
\<close>

definition create_github_issue ::
  "github \<Rightarrow> pystr list \<Rightarrow> pystr \<Rightarrow> pystr \<Rightarrow> pystr \<Rightarrow> pystr \<Rightarrow> py_error + outcome \<times> pystr list"
where
  "create_github_issue gh store title body repo_name label =
     (case run_command (issue_list gh store (search_query title repo_name)) of
        Inr existing_issues \<Rightarrow>
          if existing_issues \<noteq> [] then Inr (Skipped, store)
          else Inr (create_issue gh store title body label)
      | Inl e \<Rightarrow>
          (case e of
             CalledProcessError err \<Rightarrow> Inr (create_issue gh store title body label)
           | _ \<Rightarrow> Inl e))"

text \<open>Lines 304-306: the title of a record.\<close>

definition issue_title :: "obligation \<Rightarrow> pystr" where
  "issue_title s =
     (if decl_name s = [] then
        str ''Proof obligation in '' @ [96] @ file_path s @ [96] @ str '' near line '' @
        str_nat (line_num s)
      else
        str ''Proof obligation for '' @ [96] @ decl_name s @ [96] @ str '' in '' @ [96] @
        file_path s @ [96])"

text \<open>
  Lines 308-317: the body; \<open>ai_analysis\<close> is what \<open>generate_ai_analysis\<close> returned
  (the empty string when the call failed). Code point 96 is the backquote and 129302
  the robot face of the analysis heading.
\<close>

definition issue_body :: "obligation \<Rightarrow> pystr \<Rightarrow> pystr \<Rightarrow> pystr" where
  "issue_body s ai_analysis repo_name =
     (let analysis_section =
            (if ai_analysis \<noteq> [] then
               str ''\<newline>\<newline>**'' @ [129302] @ str '' AI Analysis:**\<newline>'' @ ai_analysis
             else [])
      in str ''A proof in '' @ [96] @ file_path s @ [96] @ str '' contains a '' @ [96] @ marker @
         [96] @ str ''.'' @ analysis_section @ str ''\<newline>\<newline>'' @
         str ''**Goal:** Replace the '' @ [96] @ marker @ [96] @
         str '' with a complete proof.\<newline>\<newline>'' @
         str ''[Link to the '' @ marker @ str '' on GitHub](https://github.com/'' @ repo_name @
         str ''/blob/master/'' @ file_path s @ str ''#L'' @ str_nat (line_num s) @
         str '')\<newline>\<newline>'' @
         str ''**Code Snippet:**\<newline>'' @ [96, 96, 96] @ str ''lean\<newline>'' @ snippet s @
         str ''\<newline>'' @ [96, 96, 96])"

text \<open>
  What a run of \<open>process_sorries\<close> leaves: the exception that ended it, if any; the
  title and outcome of every record it handled, in order; the store afterwards.
\<close>

record run_result =
  raised :: "py_error option"
  outcomes :: "(pystr \<times> outcome) list"
  final_store :: "pystr list"

text \<open>
  Lines 292-321: \<open>process_sorries\<close>. The records are taken in the order in which
  their analyses complete, which is the order of the list given here; \<open>analysis\<close> is
  the result of \<open>generate_ai_analysis\<close> for a record. The handler \<open>except Exception\<close>
  prints an error and goes on to the next record; an exception that is not an
  \<open>Exception\<close> ends the loop and the function.
\<close>

fun process_sorries ::
  "github \<Rightarrow> (obligation \<Rightarrow> pystr) \<Rightarrow> pystr \<Rightarrow> pystr \<Rightarrow> obligation list \<Rightarrow> pystr list \<Rightarrow> run_result"
where
  "process_sorries gh analysis repo_name label [] store =
     \<lparr>raised = None, outcomes = [], final_store = store\<rparr>"
| "process_sorries gh analysis repo_name label (sorry_info # rest) store =
     (let ai_analysis = analysis sorry_info;
          title = issue_title sorry_info;
          body = issue_body sorry_info ai_analysis repo_name
      in case create_github_issue gh store title body repo_name label of
           Inr (result, store') \<Rightarrow>
             (let r = process_sorries gh analysis repo_name label rest store'
              in r\<lparr>outcomes := (title, result) # outcomes r\<rparr>)
         | Inl e \<Rightarrow>
             if is_Exception e then
               (let r = process_sorries gh analysis repo_name label rest store
                in r\<lparr>outcomes := (title, Errored) # outcomes r\<rparr>)
             else \<lparr>raised = Some e, outcomes = [], final_store = store\<rparr>)"

section \<open>What the scan computes\<close>

text \<open>
  Three notions used to state what the loop of \<open>find_all_sorries\<close> computes.
  \<open>emits line\<close>: the line reaches the \<open>append\<close> of line 282. \<open>context_after lines k\<close>:
  the values of \<open>current_decl_header\<close> and \<open>current_decl_linenum\<close> once the first \<open>k\<close>
  lines have been read. \<open>record_at \<dots> lines i\<close>: the dictionary appended for the line
  of index \<open>i\<close>.
\<close>

definition emits :: "pystr \<Rightarrow> bool" where
  "emits line = (py_in marker line \<and> \<not> in_comment line)"

fun context_after :: "pystr list \<Rightarrow> nat \<Rightarrow> pystr \<times> nat" where
  "context_after lines 0 = ([], 0)"
| "context_after lines (Suc k) =
     (if decl_regex_search (lines ! k) then (strip (lines ! k), Suc k)
      else context_after lines k)"

definition record_at :: "platform \<Rightarrow> pystr \<Rightarrow> bool \<Rightarrow> pystr \<Rightarrow> pystr list \<Rightarrow> nat \<Rightarrow> obligation" where
  "record_at fs target_repo_path web_search path lines i =
     (let header = fst (context_after lines (Suc i));
          n = snd (context_after lines (Suc i));
          start_line = (if n > 0 then n else i + 1)
      in \<lparr>file_path = path, line_num = i + 1, decl_name = decl_name_of header,
          snippet = concat (py_slice lines (start_line - 1) (i + 1)),
          full_content = concat lines,
          imports_context = find_and_read_imports fs (concat lines) target_repo_path web_search\<rparr>)"

section \<open>Notions for the statements and the examples\<close>

text \<open>
  \<open>str.capitalize\<close> on a text of ASCII characters, where the case tables are those
  of the letters \<open>a-z\<close> and \<open>A-Z\<close>; it is the platform's function in the examples,
  whose names are all ASCII.
\<close>

definition ascii_upper :: "nat \<Rightarrow> nat" where
  "ascii_upper c = (if 97 \<le> c \<and> c \<le> 122 then c - 32 else c)"

definition ascii_lower :: "nat \<Rightarrow> nat" where
  "ascii_lower c = (if 65 \<le> c \<and> c \<le> 90 then c + 32 else c)"

definition ascii_capitalize :: "pystr \<Rightarrow> pystr" where
  "ascii_capitalize s = (case s of [] \<Rightarrow> [] | c # cs \<Rightarrow> ascii_upper c # map ascii_lower cs)"

text \<open>
  Three notions in which the claims about headers without a name are stated; they
  describe the text of a header and do not run the name pattern.
  \<open>decl_keywords\<close>: the keywords of the two patterns, as a list.
  \<open>keyword_names header\<close>: somewhere in the header, with no newline before it, a
  keyword stands followed by white space and then a character a name can hold.
  \<open>no_name_after_keyword line\<close>: the line is a header, and what follows its keyword
  and the white space after it (the rest of the line after the match of
  \<open>decl_regex\<close>) is empty or starts with a character a name cannot hold.
\<close>

definition decl_keywords :: "pystr list" where
  "decl_keywords =
     [str ''theorem'', str ''lemma'', str ''def'', str ''instance'', str ''example'',
      str ''opaque'', str ''abbrev'', str ''inductive'', str ''structure'']"

definition keyword_names :: "pystr \<Rightarrow> bool" where
  "keyword_names header =
     (\<exists>pre kw sp c post.
        header = pre @ kw @ sp @ c # post \<and> 10 \<notin> set pre \<and> kw \<in> set decl_keywords \<and>
        sp \<noteq> [] \<and> (\<forall>x \<in> set sp. isspace x) \<and> name_char c)"

definition no_name_after_keyword :: "pystr \<Rightarrow> bool" where
  "no_name_after_keyword line =
     (case paths decl_regex line of
        [] \<Rightarrow> False
      | (g, rest) # _ \<Rightarrow> (case rest of [] \<Rightarrow> True | c # _ \<Rightarrow> \<not> name_char c))"


section \<open>Example inputs\<close>

text \<open>
  Concrete inputs for the examples below: file systems, files as lists of lines or as
  texts, directory trees, stores of issues with the answers of the GitHub command line,
  and records.
\<close>

definition no_files :: platform where
  "no_files =
     \<lparr>isdir = (\<lambda>p. False), listdir = (\<lambda>p. []), path_exists = (\<lambda>p. False),
      open_read = (\<lambda>p. Unreadable OSError), str_capitalize = ascii_capitalize\<rparr>"

definition commented_file :: "pystr list" where
  "commented_file =
     [str ''theorem foo : True := by\<newline>'', str ''  sorry -- todo\<newline>'', str ''  -- sorry\<newline>'']"

definition bare_file :: "pystr list" where
  "bare_file = [str ''-- a note\<newline>'', str ''  exact sorryAx _ -- later\<newline>'']"

definition instance_file :: "pystr list" where
  "instance_file =
     [str ''instance : Inhabited Foo := by\<newline>'', str ''  constructor\<newline>'', str ''  sorry\<newline>'']"


definition two_marker_text :: pystr where
  "two_marker_text = str ''theorem foo : True := by\<newline>  sorry\<newline>  sorry\<newline>''"

definition note_text :: pystr where
  "note_text = str ''-- nothing to prove here\<newline>''"

definition unreadable_tree :: dir_tree where
  "unreadable_tree =
     Dir [(str ''B.lean'', Unreadable UnicodeDecodeError), (str ''A.lean'', Text two_marker_text)] []"

definition readable_tree :: dir_tree where
  "readable_tree = Dir [(str ''A.lean'', Text two_marker_text)] []"

definition big_import_fs :: platform where
  "big_import_fs =
     \<lparr>isdir = (\<lambda>p. False), listdir = (\<lambda>p. []),
      path_exists = (\<lambda>p. p = str ''/repo/Big.lean''),
      open_read = (\<lambda>p. if p = str ''/repo/Big.lean'' then Text (replicate 12500 233)
                        else Unreadable OSError),
      str_capitalize = ascii_capitalize\<rparr>"

definition exact_title_gh :: github where
  "exact_title_gh =
     \<lparr>issue_list = (\<lambda>store query.
        Exited (concat (map (\<lambda>t. t @ [10])
          (filter (\<lambda>t. query = [34] @ t @ [34] @ str '' in:title repo:o/r is:open'') store)))),
      issue_create = (\<lambda>store title body label. Exited (str ''https://github.com/o/r/issues/1\<newline>''))\<rparr>"

definition failing_search_gh :: github where
  "failing_search_gh =
     \<lparr>issue_list = (\<lambda>store query. Failed (str ''HTTP 502'')),
      issue_create = (\<lambda>store title body label. Exited (str ''https://github.com/o/r/issues/1\<newline>''))\<rparr>"

definition foo_record :: obligation where
  "foo_record =
     \<lparr>file_path = str ''./A.lean'', line_num = 2, decl_name = str ''foo'',
      snippet = str ''theorem foo : True := by\<newline>  sorry\<newline>'',
      full_content = str ''theorem foo : True := by\<newline>  sorry\<newline>'',
      imports_context = []\<rparr>"

definition bar_record :: obligation where
  "bar_record =
     \<lparr>file_path = str ''./B.lean'', line_num = 2, decl_name = str ''bar'',
      snippet = str ''lemma bar : True := by\<newline>  sorry\<newline>'',
      full_content = str ''lemma bar : True := by\<newline>  sorry\<newline>'',
      imports_context = []\<rparr>"


definition comment_header_file :: "pystr list" where
  "comment_header_file =
     [str ''instance : Foo := by -- see theorem bar\<newline>'', str ''  sorry\<newline>'']"

section \<open>The scan as a function of the lines\<close>

lemma scan_line_step:
  assumes "current_decl_header st = fst (context_after lines k)"
    and "current_decl_linenum st = snd (context_after lines k)"
  shows "scan_line fs t w p lines (concat lines) (k, lines ! k) st =
     (if emits (lines ! k) then
        st\<lparr>current_decl_header := fst (context_after lines (Suc k)),
           current_decl_linenum := snd (context_after lines (Suc k)),
           sorries_to_process := sorries_to_process st @ [record_at fs t w p lines k],
           resolver_calls := resolver_calls st @ [(concat lines, t, w)]\<rparr>
      else
        st\<lparr>current_decl_header := fst (context_after lines (Suc k)),
           current_decl_linenum := snd (context_after lines (Suc k))\<rparr>)"
  using assms by (cases st) (simp add: scan_line_def emits_def record_at_def Let_def)

lemma scan_fold:
  assumes "k \<le> length lines"
    and "current_decl_header st = fst (context_after lines k)"
    and "current_decl_linenum st = snd (context_after lines k)"
  shows "sorries_to_process
           (fold (scan_line fs t w p lines (concat lines)) (enumerate k (drop k lines)) st) =
         sorries_to_process st @
           map (record_at fs t w p lines) (filter (\<lambda>i. emits (lines ! i)) [k..<length lines]) \<and>
         resolver_calls
           (fold (scan_line fs t w p lines (concat lines)) (enumerate k (drop k lines)) st) =
         resolver_calls st @
           map (\<lambda>i. (concat lines, t, w)) (filter (\<lambda>i. emits (lines ! i)) [k..<length lines])"
  using assms
proof (induction "length lines - k" arbitrary: k st)
  case 0
  then show ?case by simp
next
  case (Suc d)
  then have lt: "k < length lines" by simp
  let ?st' = "scan_line fs t w p lines (concat lines) (k, lines ! k) st"
  have step: "?st' = (if emits (lines ! k) then
        st\<lparr>current_decl_header := fst (context_after lines (Suc k)),
           current_decl_linenum := snd (context_after lines (Suc k)),
           sorries_to_process := sorries_to_process st @ [record_at fs t w p lines k],
           resolver_calls := resolver_calls st @ [(concat lines, t, w)]\<rparr>
      else
        st\<lparr>current_decl_header := fst (context_after lines (Suc k)),
           current_decl_linenum := snd (context_after lines (Suc k))\<rparr>)"
    by (rule scan_line_step) (use Suc.prems in simp_all)
  have d: "d = length lines - Suc k" using Suc.hyps(2) by simp
  have h1: "current_decl_header ?st' = fst (context_after lines (Suc k))"
    and h2: "current_decl_linenum ?st' = snd (context_after lines (Suc k))"
    by (simp_all only: step split: if_splits, simp_all)
  have IH: "sorries_to_process
           (fold (scan_line fs t w p lines (concat lines)) (enumerate (Suc k) (drop (Suc k) lines)) ?st') =
         sorries_to_process ?st' @
           map (record_at fs t w p lines) (filter (\<lambda>i. emits (lines ! i)) [Suc k..<length lines]) \<and>
         resolver_calls
           (fold (scan_line fs t w p lines (concat lines)) (enumerate (Suc k) (drop (Suc k) lines)) ?st') =
         resolver_calls ?st' @
           map (\<lambda>i. (concat lines, t, w)) (filter (\<lambda>i. emits (lines ! i)) [Suc k..<length lines])"
    using Suc.hyps(1)[OF d _ h1 h2] lt by simp
  have unf: "enumerate k (drop k lines) = (k, lines ! k) # enumerate (Suc k) (drop (Suc k) lines)"
    using lt by (simp add: Cons_nth_drop_Suc[symmetric])
  have up: "[k..<length lines] = k # [Suc k..<length lines]"
    using lt by (simp add: upt_conv_Cons)
  have s1: "sorries_to_process ?st' = sorries_to_process st @ (if emits (lines ! k) then [record_at fs t w p lines k] else [])"
    by (simp add: step)
  have s2: "resolver_calls ?st' = resolver_calls st @ (if emits (lines ! k) then [(concat lines, t, w)] else [])"
    by (simp add: step)
  show ?case
    unfolding unf up using IH by (simp add: s1 s2 del: upt_Suc)
qed

lemma scan_lines_records:
  "sorries_to_process (scan_lines fs t w p lines st) =
     sorries_to_process st @
     map (record_at fs t w p lines) (filter (\<lambda>i. emits (lines ! i)) [0..<length lines])"
  using scan_fold[of 0 lines "st\<lparr>current_decl_header := [], current_decl_linenum := 0\<rparr>" fs t w p]
  by (simp add: scan_lines_def)

lemma scan_lines_calls:
  "resolver_calls (scan_lines fs t w p lines st) =
     resolver_calls st @
     map (\<lambda>i. (concat lines, t, w)) (filter (\<lambda>i. emits (lines ! i)) [0..<length lines])"
  using scan_fold[of 0 lines "st\<lparr>current_decl_header := [], current_decl_linenum := 0\<rparr>" fs t w p]
  by (simp add: scan_lines_def)

lemma context_after_le: "snd (context_after lines k) \<le> k"
  by (induction k) auto

lemma context_after_none:
  "(\<forall>j<k. \<not> decl_regex_search (lines ! j)) \<Longrightarrow> context_after lines k = ([], 0)"
  by (induction k) auto

lemma context_after_last:
  "h < k \<Longrightarrow> decl_regex_search (lines ! h) \<Longrightarrow>
   (\<forall>j. h < j \<and> j < k \<longrightarrow> \<not> decl_regex_search (lines ! j)) \<Longrightarrow>
   context_after lines k = (strip (lines ! h), Suc h)"
proof (induction k)
  case 0
  then show ?case by simp
next
  case (Suc k)
  show ?case
  proof (cases "h = k")
    case True
    with Suc.prems show ?thesis by simp
  next
    case False
    with Suc.prems have "h < k" by simp
    moreover have "\<not> decl_regex_search (lines ! k)" using Suc.prems \<open>h < k\<close> by simp
    ultimately show ?thesis using Suc by simp
  qed
qed

declare context_after.simps [simp del]

lemma filter_eq_upt: "filter (\<lambda>j. j = i \<and> P j) [0..<n] = (if i < n \<and> P i then [i] else [])"
  by (induction n) auto

lemma count_records_at:
  "length (filter (\<lambda>r. line_num r = Suc i)
       (sorries_to_process (scan_lines fs t w p lines empty_state))) =
   (if i < length lines \<and> emits (lines ! i) then 1 else 0)"
proof -
  have "filter (\<lambda>r. line_num r = Suc i)
          (map (record_at fs t w p lines) (filter (\<lambda>i. emits (lines ! i)) [0..<length lines])) =
        map (record_at fs t w p lines) (filter (\<lambda>j. j = i \<and> emits (lines ! j)) [0..<length lines])"
    by (simp add: filter_map comp_def record_at_def Let_def conj_commute)
  then show ?thesis
    by (simp add: scan_lines_records empty_state_def filter_eq_upt)
qed

lemma record_at_mem:
  "i < length lines \<Longrightarrow> emits (lines ! i) \<Longrightarrow>
   record_at fs t w p lines i \<in> set (sorries_to_process (scan_lines fs t w p lines empty_state))"
  by (simp add: scan_lines_records empty_state_def)

lemma mem_record_at:
  "r \<in> set (sorries_to_process (scan_lines fs t w p lines empty_state)) \<Longrightarrow>
   \<exists>i<length lines. emits (lines ! i) \<and> r = record_at fs t w p lines i"
  by (auto simp: scan_lines_records empty_state_def)

lemma slice_last: "k \<le> i \<Longrightarrow> i < length xs \<Longrightarrow> py_slice xs k (Suc i) = py_slice xs k i @ [xs ! i]"
  by (simp add: py_slice_def take_Suc_conv_app_nth)

lemma slice_first: "h \<le> i \<Longrightarrow> i < length xs \<Longrightarrow> py_slice xs h (Suc i) = xs ! h # py_slice xs (Suc h) (Suc i)"
  using Cons_nth_drop_Suc[of h "take (Suc i) xs", symmetric] by (simp add: py_slice_def)

lemma decl_name_of_empty: "decl_name_of [] = []"
  by (simp add: decl_name_of_def re_match_def name_extract_regex_def decl_keyword_def)

lemma decl_regex_search_nonempty: "decl_regex_search l \<Longrightarrow> l \<noteq> []"
  by (auto simp: decl_regex_search_def re_match_def decl_regex_def decl_keyword_def)

lemma emits_nonempty: "emits l \<Longrightarrow> l \<noteq> []"
  by (auto simp: emits_def marker_def)

section \<open>Facts about the string functions and the patterns\<close>

lemma py_in_iff: "py_in sub s \<longleftrightarrow> (\<exists>pre post. s = pre @ sub @ post)"
proof (induction s)
  case Nil
  then show ?case by auto
next
  case (Cons c cs)
  show ?case
  proof
    assume "py_in sub (c # cs)"
    then consider "prefix sub (c # cs)" | "py_in sub cs" by auto
    then show "\<exists>pre post. c # cs = pre @ sub @ post"
    proof cases
      case 1
      then obtain post where "c # cs = sub @ post" by (auto simp: prefix_def)
      then have "c # cs = [] @ sub @ post" by simp
      then show ?thesis by blast
    next
      case 2
      with Cons obtain pre post where "cs = pre @ sub @ post" by auto
      then have "c # cs = (c # pre) @ sub @ post" by simp
      then show ?thesis by blast
    qed
  next
    assume "\<exists>pre post. c # cs = pre @ sub @ post"
    then obtain pre post where eq: "c # cs = pre @ sub @ post" by blast
    show "py_in sub (c # cs)"
    proof (cases pre)
      case Nil
      with eq have "prefix sub (c # cs)" by (simp add: prefix_def)
      then show ?thesis by simp
    next
      case (Cons x pre')
      with eq have "cs = pre' @ sub @ post" by simp
      with Cons.IH have "py_in sub cs" by blast
      then show ?thesis by simp
    qed
  qed
qed

lemma marker_before_comment:
  "\<not> py_in (str ''--'') pre \<Longrightarrow>
   (case first_index marker (pre @ marker @ post) of
      None \<Rightarrow> False
    | Some m \<Rightarrow> (case first_index (str ''--'') (pre @ marker @ post) of
                  None \<Rightarrow> True | Some c \<Rightarrow> m < c))"
proof (induction pre)
  case Nil
  then show ?case by (simp add: marker_def split: option.splits)
next
  case (Cons x pre)
  then show ?case
    by (cases pre) (auto simp: marker_def split: option.splits)
qed

lemma not_in_comment:
  assumes "\<not> py_in (str ''--'') pre"
  shows "\<not> in_comment (pre @ marker @ post)"
  using marker_before_comment[OF assms, of post]
  by (auto simp: in_comment_def py_find_def Let_def split: option.splits)

lemma greedy_set: "r \<in> set (greedy p s) \<longleftrightarrow> (\<exists>pre. s = pre @ r \<and> (\<forall>x \<in> set pre. p x))"
proof (induction s)
  case Nil
  then show ?case by auto
next
  case (Cons c cs)
  show ?case
  proof (cases "p c")
    case True
    then show ?thesis using Cons by (auto simp: Cons_eq_append_conv)
  next
    case False
    then show ?thesis by (auto simp: Cons_eq_append_conv)
  qed
qed

lemma paths_Lit: "(g, r) \<in> set (paths (Lit w) s) \<longleftrightarrow> g = [] \<and> s = w @ r"
  by (auto simp: prefix_def)

lemma paths_Alt: "set (paths (Alt a b) s) = set (paths a s) \<union> set (paths b s)"
  by simp

lemma paths_Cat:
  "(g, r) \<in> set (paths (Cat a b) s) \<longleftrightarrow>
     (\<exists>g1 r1 g2. (g1, r1) \<in> set (paths a s) \<and> (g2, r) \<in> set (paths b r1) \<and> g = g1 @ g2)"
  by force

lemma paths_Plus:
  "(g, r) \<in> set (paths (Plus p) s) \<longleftrightarrow>
     g = [] \<and> (\<exists>sp. sp \<noteq> [] \<and> s = sp @ r \<and> (\<forall>x \<in> set sp. p x))"
proof (cases s)
  case Nil
  then show ?thesis by auto
next
  case (Cons c cs)
  show ?thesis
  proof
    assume "(g, r) \<in> set (paths (Plus p) s)"
    then have "p c" "g = []" "r \<in> set (greedy p cs)"
      using Cons by (auto split: if_splits)
    then obtain pre where "cs = pre @ r" "\<forall>x \<in> set pre. p x"
      by (auto simp: greedy_set)
    then have "c # pre \<noteq> [] \<and> s = (c # pre) @ r \<and> (\<forall>x \<in> set (c # pre). p x)"
      using Cons \<open>p c\<close> by simp
    then show "g = [] \<and> (\<exists>sp. sp \<noteq> [] \<and> s = sp @ r \<and> (\<forall>x \<in> set sp. p x))"
      using \<open>g = []\<close> by blast
  next
    assume "g = [] \<and> (\<exists>sp. sp \<noteq> [] \<and> s = sp @ r \<and> (\<forall>x \<in> set sp. p x))"
    then obtain sp where g: "g = []" and sp: "sp \<noteq> []" "s = sp @ r" "\<forall>x \<in> set sp. p x"
      by blast
    then obtain pre where "sp = c # pre" using Cons by (cases sp) auto
    then have "p c" "cs = pre @ r" "\<forall>x \<in> set pre. p x" using sp Cons by auto
    then have "r \<in> set (greedy p cs)" by (auto simp: greedy_set)
    then show "(g, r) \<in> set (paths (Plus p) s)" using Cons \<open>p c\<close> g by simp
  qed
qed

lemma paths_LazyStar:
  "(g, r) \<in> set (paths (LazyStar p) s) \<longleftrightarrow>
     g = [] \<and> (\<exists>pre. s = pre @ r \<and> (\<forall>x \<in> set pre. p x))"
  by (auto simp: greedy_set)

lemma paths_Group:
  "(g, r) \<in> set (paths (Group a) s) \<longleftrightarrow>
     (\<exists>g'. (g', r) \<in> set (paths a s) \<and> g = take (length s - length r) s # g')"
  by force

lemma paths_keyword:
  "(g, r) \<in> set (paths decl_keyword s) \<longleftrightarrow> g = [] \<and> (\<exists>kw \<in> set decl_keywords. s = kw @ r)"
  unfolding decl_keyword_def decl_keywords_def paths_Alt Un_iff paths_Lit by auto

lemma name_paths:
  "(g, r) \<in> set (paths name_extract_regex h) \<longleftrightarrow>
     (\<exists>pre kw sp nm.
        h = pre @ kw @ sp @ nm @ r \<and> 10 \<notin> set pre \<and> kw \<in> set decl_keywords \<and>
        sp \<noteq> [] \<and> (\<forall>x \<in> set sp. isspace x) \<and>
        nm \<noteq> [] \<and> (\<forall>x \<in> set nm. name_char x) \<and> g = [nm])"
  (is "?L \<longleftrightarrow> ?R")
proof
  assume ?L
  then obtain g1 r1 g2 where a: "(g1, r1) \<in> set (paths (LazyStar (\<lambda>c. c \<noteq> 10)) h)"
    and b: "(g2, r) \<in> set (paths (Cat decl_keyword (Cat (Plus isspace) (Group (Plus name_char)))) r1)"
    and g: "g = g1 @ g2"
    unfolding name_extract_regex_def paths_Cat[of g r "LazyStar (\<lambda>c. c \<noteq> 10)"] by blast
  from a obtain pre where pre: "g1 = []" "h = pre @ r1" "\<forall>x \<in> set pre. x \<noteq> 10"
    unfolding paths_LazyStar by blast
  from b obtain g3 r2 g4 where c: "(g3, r2) \<in> set (paths decl_keyword r1)"
    and d: "(g4, r) \<in> set (paths (Cat (Plus isspace) (Group (Plus name_char))) r2)"
    and g2: "g2 = g3 @ g4"
    unfolding paths_Cat[of g2 r decl_keyword] by blast
  from c obtain kw where kw: "g3 = []" "kw \<in> set decl_keywords" "r1 = kw @ r2"
    unfolding paths_keyword by blast
  from d obtain g5 r3 g6 where e: "(g5, r3) \<in> set (paths (Plus isspace) r2)"
    and f: "(g6, r) \<in> set (paths (Group (Plus name_char)) r3)"
    and g4: "g4 = g5 @ g6"
    unfolding paths_Cat[of g4 r "Plus isspace"] by blast
  from e obtain sp where sp: "g5 = []" "sp \<noteq> []" "r2 = sp @ r3" "\<forall>x \<in> set sp. isspace x"
    unfolding paths_Plus by blast
  from f obtain g7 where g7: "(g7, r) \<in> set (paths (Plus name_char) r3)"
    and g6: "g6 = take (length r3 - length r) r3 # g7"
    unfolding paths_Group by blast
  from g7 obtain nm where nm: "g7 = []" "nm \<noteq> []" "r3 = nm @ r" "\<forall>x \<in> set nm. name_char x"
    unfolding paths_Plus by blast
  have "g = [nm]" using g pre(1) g2 kw(1) g4 sp(1) g6 nm(1,3) by simp
  moreover have "h = pre @ kw @ sp @ nm @ r" using pre(2) kw(3) sp(3) nm(3) by simp
  moreover have "10 \<notin> set pre" using pre(3) by blast
  ultimately show ?R using kw(2) sp(2,4) nm(2,4) by blast
next
  assume ?R
  then obtain pre kw sp nm where h: "h = pre @ kw @ sp @ nm @ r" and pre: "10 \<notin> set pre"
    and kw: "kw \<in> set decl_keywords" and sp: "sp \<noteq> []" "\<forall>x \<in> set sp. isspace x"
    and nm: "nm \<noteq> []" "\<forall>x \<in> set nm. name_char x" and g: "g = [nm]"
    by blast
  have a: "([], kw @ sp @ nm @ r) \<in> set (paths (LazyStar (\<lambda>c. c \<noteq> 10)) h)"
    unfolding paths_LazyStar using h pre by (intro conjI exI[of _ pre]) auto
  have c: "([], sp @ nm @ r) \<in> set (paths decl_keyword (kw @ sp @ nm @ r))"
    unfolding paths_keyword using kw by blast
  have e: "([], nm @ r) \<in> set (paths (Plus isspace) (sp @ nm @ r))"
    unfolding paths_Plus using sp by blast
  have "([], r) \<in> set (paths (Plus name_char) (nm @ r))"
    unfolding paths_Plus using nm by blast
  then have f: "([nm], r) \<in> set (paths (Group (Plus name_char)) (nm @ r))"
    unfolding paths_Group by (intro exI[of _ "[]"]) simp
  have d: "([nm], r) \<in> set (paths (Cat (Plus isspace) (Group (Plus name_char))) (sp @ nm @ r))"
    unfolding paths_Cat[of "[nm]" r "Plus isspace"] using e f by (intro exI[of _ "[]"] exI[of _ "nm @ r"] exI[of _ "[nm]"]) simp
  have b: "([nm], r) \<in> set (paths (Cat decl_keyword (Cat (Plus isspace) (Group (Plus name_char)))) (kw @ sp @ nm @ r))"
    unfolding paths_Cat[of "[nm]" r decl_keyword] using c d by (intro exI[of _ "[]"] exI[of _ "sp @ nm @ r"] exI[of _ "[nm]"]) simp
  show ?L
    unfolding name_extract_regex_def g paths_Cat[of "[nm]" r "LazyStar (\<lambda>c. c \<noteq> 10)"]
    using a b by (intro exI[of _ "[]"] exI[of _ "kw @ sp @ nm @ r"] exI[of _ "[nm]"]) simp
qed

lemma keyword_names_iff: "keyword_names h \<longleftrightarrow> paths name_extract_regex h \<noteq> []"
proof
  assume "keyword_names h"
  then obtain pre kw sp c post where
    "h = pre @ kw @ sp @ [c] @ post" "10 \<notin> set pre" "kw \<in> set decl_keywords"
    "sp \<noteq> []" "\<forall>x \<in> set sp. isspace x" "name_char c"
    unfolding keyword_names_def by auto
  then have "([[c]], post) \<in> set (paths name_extract_regex h)"
    unfolding name_paths by (intro exI[of _ pre] exI[of _ kw] exI[of _ sp] exI[of _ "[c]"]) simp
  then show "paths name_extract_regex h \<noteq> []" by auto
next
  assume "paths name_extract_regex h \<noteq> []"
  then obtain g r where "(g, r) \<in> set (paths name_extract_regex h)"
    by (cases "paths name_extract_regex h") auto
  then obtain pre kw sp nm where
    h: "h = pre @ kw @ sp @ nm @ r" "10 \<notin> set pre" "kw \<in> set decl_keywords"
    "sp \<noteq> []" "\<forall>x \<in> set sp. isspace x" and nm: "nm \<noteq> []" "\<forall>x \<in> set nm. name_char x"
    unfolding name_paths by blast
  from nm obtain c cs where c: "nm = c # cs" "name_char c" by (cases nm) auto
  have "h = pre @ kw @ sp @ c # (cs @ r)" using h(1) c(1) by simp
  then show "keyword_names h"
    unfolding keyword_names_def using h(2-5) c(2) by blast
qed

lemma decl_name_empty_iff: "decl_name_of h = [] \<longleftrightarrow> \<not> keyword_names h"
proof (cases "paths name_extract_regex h")
  case Nil
  then show ?thesis by (simp add: keyword_names_iff decl_name_of_def re_match_def)
next
  case (Cons x xs)
  obtain g r where x: "x = (g, r)" by (cases x)
  then have "(g, r) \<in> set (paths name_extract_regex h)" using Cons by simp
  then obtain nm where "g = [nm]" "nm \<noteq> []" unfolding name_paths by blast
  then show ?thesis using Cons x by (simp add: keyword_names_iff decl_name_of_def re_match_def)
qed

section \<open>The scanner's records\<close>

text \<open>
  C6. A line that holds the marker and on which the first marker stands after the
  first \<open>--\<close> gives no record. A line that holds the marker and either holds no
  \<open>--\<close> or has its first marker before the first \<open>--\<close> gives exactly one record,
  with that line's number.
\<close>

theorem marker_line_record_iff:
  assumes "i < length lines" and "py_in marker (lines ! i)"
  shows "(py_find (lines ! i) (str ''--'') \<noteq> - 1 \<and>
          py_find (lines ! i) marker > py_find (lines ! i) (str ''--'') \<longrightarrow>
          length (filter (\<lambda>r. line_num r = i + 1)
            (sorries_to_process (scan_lines fs t w p lines empty_state))) = 0) \<and>
         (py_find (lines ! i) (str ''--'') = - 1 \<or>
          py_find (lines ! i) marker < py_find (lines ! i) (str ''--'') \<longrightarrow>
          length (filter (\<lambda>r. line_num r = i + 1)
            (sorries_to_process (scan_lines fs t w p lines empty_state))) = 1)"
  using assms by (auto simp: count_records_at emits_def in_comment_def Let_def)

theorem marker_line_record_iff_witness:
  "length (filter (\<lambda>r. line_num r = 1 + 1)
     (sorries_to_process
        (scan_lines no_files (str ''/repo'') False (str ''./A.lean'') commented_file empty_state))) = 1 \<and>
   length (filter (\<lambda>r. line_num r = 2 + 1)
     (sorries_to_process
        (scan_lines no_files (str ''/repo'') False (str ''./A.lean'') commented_file empty_state))) = 0"
  using marker_line_record_iff[of 1 commented_file no_files "str ''/repo''" False "str ''./A.lean''"]
    marker_line_record_iff[of 2 commented_file no_files "str ''/repo''" False "str ''./A.lean''"]
  by (simp add: commented_file_def py_find_def marker_def)

text \<open>
  C8. Every record of a file has a non-empty snippet, which is the lines from some line
  at or before the marker's line through the marker's line, so it ends with the line
  that holds the marker. When no line up to and including the marker's line is a
  declaration header, the snippet is the marker's line alone and the declaration name
  is empty. (A header on the marker's own line does come before the marker: the
  header pattern is anchored at the start of the line.)
\<close>

theorem snippet_invariant:
  assumes "r \<in> set (sorries_to_process (scan_lines fs t w p lines empty_state))"
  shows "snippet r \<noteq> [] \<and>
         0 < line_num r \<and> line_num r \<le> length lines \<and>
         py_in marker (lines ! (line_num r - 1)) \<and>
         (\<exists>k<line_num r. snippet r = concat (py_slice lines k (line_num r))) \<and>
         suffix (lines ! (line_num r - 1)) (snippet r) \<and>
         ((\<forall>j<line_num r. \<not> decl_regex_search (lines ! j)) \<longrightarrow>
            snippet r = lines ! (line_num r - 1) \<and> decl_name r = [])"
proof -
  from mem_record_at[OF assms] obtain i where
    i: "i < length lines" and em: "emits (lines ! i)" and r: "r = record_at fs t w p lines i"
    by blast
  define n where "n = snd (context_after lines (Suc i))"
  define k where "k = (if n > 0 then n else i + 1) - 1"
  have n_le: "n \<le> Suc i" unfolding n_def by (rule context_after_le)
  have k_le: "k \<le> i" using n_le by (auto simp: k_def)
  have ln: "line_num r = Suc i" by (simp add: r record_at_def Let_def)
  have sn: "snippet r = concat (py_slice lines k (Suc i))"
    by (simp add: r record_at_def Let_def k_def n_def)
  have sn2: "snippet r = concat (py_slice lines k i) @ lines ! i"
    by (simp add: sn slice_last[OF k_le i])
  have ne: "lines ! i \<noteq> []" using em by (rule emits_nonempty)
  have c1: "snippet r \<noteq> []" using sn2 ne by simp
  have c2: "py_in marker (lines ! (line_num r - 1))" using em by (simp add: ln emits_def)
  have c3: "\<exists>k<line_num r. snippet r = concat (py_slice lines k (line_num r))"
    using k_le sn ln by (intro exI[of _ k]) simp
  have c4: "suffix (lines ! (line_num r - 1)) (snippet r)"
    by (simp add: ln sn2 suffix_def)
  have c5: "snippet r = lines ! (line_num r - 1) \<and> decl_name r = []"
    if "\<forall>j<line_num r. \<not> decl_regex_search (lines ! j)"
  proof -
    from that have ctx: "context_after lines (Suc i) = ([], 0)"
      unfolding ln by (rule context_after_none)
    have "py_slice lines i (Suc i) = [lines ! i]"
      using i by (simp add: py_slice_def take_Suc_conv_app_nth)
    then show ?thesis
      using ctx by (simp add: r record_at_def Let_def decl_name_of_empty)
  qed
  show ?thesis using c1 c2 c3 c4 c5 i ln by simp
qed

theorem snippet_invariant_witness:
  "snippet (record_at no_files (str ''/repo'') False (str ''./A.lean'') bare_file 1) =
     str ''  exact sorryAx _ -- later\<newline>'' \<and>
   decl_name (record_at no_files (str ''/repo'') False (str ''./A.lean'') bare_file 1) = [] \<and>
   record_at no_files (str ''/repo'') False (str ''./A.lean'') bare_file 1 \<in>
     set (sorries_to_process
        (scan_lines no_files (str ''/repo'') False (str ''./A.lean'') bare_file empty_state))"
proof -
  let ?r = "record_at no_files (str ''/repo'') False (str ''./A.lean'') bare_file 1"
  have em: "emits (bare_file ! 1)"
    by (simp add: bare_file_def emits_def in_comment_def py_find_def marker_def)
  have mem: "?r \<in> set (sorries_to_process
        (scan_lines no_files (str ''/repo'') False (str ''./A.lean'') bare_file empty_state))"
    by (rule record_at_mem) (use em in \<open>simp_all add: bare_file_def\<close>)
  have ln: "line_num ?r = 2" by (simp add: record_at_def Let_def)
  have nohdr: "\<forall>j<line_num ?r. \<not> decl_regex_search (bare_file ! j)"
    unfolding ln
  proof (intro allI impI)
    fix j :: nat assume "j < 2"
    then have "j = 0 \<or> j = 1" by arith
    then show "\<not> decl_regex_search (bare_file ! j)"
      by (auto simp: bare_file_def decl_regex_search_def re_match_def decl_regex_def
          decl_keyword_def isspace_def)
  qed
  show ?thesis
    using snippet_invariant[OF mem] nohdr mem ln by (simp add: bare_file_def)
qed

text \<open>
  C9. The marker is looked for as a substring. A line in which the characters of the
  marker stand anywhere, say between \<open>pre\<close> and \<open>post\<close> (inside an identifier such
  as \<open>sorryAx\<close>, for one), with no \<open>--\<close> in \<open>pre\<close>, gives exactly one record, with
  that line's number and a snippet that ends with the line.
\<close>

theorem substring_marker_detected:
  assumes "i < length lines" and "lines ! i = pre @ marker @ post"
    and "\<not> py_in (str ''--'') pre"
  shows "length (filter (\<lambda>r. line_num r = i + 1)
           (sorries_to_process (scan_lines fs t w p lines empty_state))) = 1 \<and>
         (\<exists>r \<in> set (sorries_to_process (scan_lines fs t w p lines empty_state)).
            line_num r = i + 1 \<and> suffix (pre @ marker @ post) (snippet r))"
proof -
  have "py_in marker (lines ! i)" using assms(2) py_in_iff by metis
  moreover have "\<not> in_comment (lines ! i)" using assms(2,3) not_in_comment by simp
  ultimately have em: "emits (lines ! i)" by (simp add: emits_def)
  let ?r = "record_at fs t w p lines i"
  have mem: "?r \<in> set (sorries_to_process (scan_lines fs t w p lines empty_state))"
    using assms(1) em by (rule record_at_mem)
  have ln: "line_num ?r = i + 1" by (simp add: record_at_def Let_def)
  define n where "n = snd (context_after lines (Suc i))"
  define k where "k = (if n > 0 then n else i + 1) - 1"
  have "n \<le> Suc i" unfolding n_def by (rule context_after_le)
  then have k_le: "k \<le> i" by (auto simp: k_def)
  have "snippet ?r = concat (py_slice lines k (Suc i))"
    by (simp add: record_at_def Let_def k_def n_def)
  then have "suffix (lines ! i) (snippet ?r)"
    by (simp add: slice_last[OF k_le assms(1)] suffix_def)
  with mem ln assms(2) have "\<exists>r \<in> set (sorries_to_process (scan_lines fs t w p lines empty_state)).
            line_num r = i + 1 \<and> suffix (pre @ marker @ post) (snippet r)"
    by auto
  then show ?thesis using em assms(1) by (simp add: count_records_at)
qed

theorem substring_marker_detected_witness:
  "length (filter (\<lambda>r. line_num r = 1 + 1)
     (sorries_to_process
        (scan_lines no_files (str ''/repo'') False (str ''./A.lean'') bare_file empty_state))) = 1"
  using substring_marker_detected[of 1 bare_file "str ''  exact ''" "str ''Ax _ -- later\<newline>''"
      no_files "str ''/repo''" False "str ''./A.lean''"]
  by (simp add: bare_file_def marker_def)

text \<open>
  C10, as stated, fails. The name pattern is not anchored at the header's own keyword:
  it takes the first place in the header where any keyword is followed by white space
  and a name. The header \<open>instance : Foo := by -- see theorem bar\<close> has no name
  token after \<open>instance\<close>, and the record of the marker below it is named \<open>bar\<close>.
\<close>

theorem nameless_header_named_from_comment:
  "decl_regex_search (comment_header_file ! 0) \<and>
   no_name_after_keyword (comment_header_file ! 0) \<and>
   py_in marker (comment_header_file ! 1) \<and>
   map (\<lambda>r. (line_num r, decl_name r))
     (sorries_to_process
        (scan_lines no_files (str ''/repo'') False (str ''./A.lean'') comment_header_file empty_state)) =
     [(1 + 1, str ''bar'')]"
proof -
  have p: "paths decl_regex (comment_header_file ! 0) =
      [([str ''instance''], str '': Foo := by -- see theorem bar\<newline>'')]"
    by (simp add: comment_header_file_def decl_regex_def decl_keyword_def isspace_def)
  have a: "decl_regex_search (comment_header_file ! 0)"
    by (simp add: decl_regex_search_def re_match_def p)
  have b: "no_name_after_keyword (comment_header_file ! 0)"
    by (simp add: no_name_after_keyword_def p name_char_def)
  have c: "py_in marker (comment_header_file ! 1)"
    by (simp add: comment_header_file_def marker_def)
  have e: "filter (\<lambda>i. emits (comment_header_file ! i)) [0..<length comment_header_file] = [1]"
    by (simp add: comment_header_file_def emits_def in_comment_def py_find_def marker_def
        upt_rec_numeral)
  have n: "\<not> decl_regex_search (comment_header_file ! 1)"
    by (simp add: comment_header_file_def decl_regex_search_def re_match_def decl_regex_def
        decl_keyword_def isspace_def)
  have x: "context_after comment_header_file (Suc 1) = (strip (comment_header_file ! 0), 1)"
    using a n by (simp add: context_after.simps)
  have d: "decl_name_of (strip (comment_header_file ! 0)) = str ''bar''"
    by (simp add: comment_header_file_def strip_def decl_name_of_def re_match_def
        name_extract_regex_def decl_keyword_def isspace_def name_char_def)
  have "map (\<lambda>r. (line_num r, decl_name r))
     (sorries_to_process
        (scan_lines no_files (str ''/repo'') False (str ''./A.lean'') comment_header_file empty_state)) =
     [(1 + 1, str ''bar'')]"
    using x d by (simp add: scan_lines_records e empty_state_def record_at_def Let_def)
  with a b c show ?thesis by blast
qed

text \<open>
  C10, amended. Let the line of index \<open>h\<close> match the header pattern and be the last
  header at or before the line of index \<open>i\<close>, a marker line that is not sent to
  \<open>continue\<close>. Then the record of line \<open>i\<close> has a snippet that runs from the
  header line through the marker line: it starts with the header line and, when
  \<open>h < i\<close>, is longer than the marker's line. Its declaration name is empty exactly
  when nowhere in the trimmed header a keyword is followed by white space and a name
  character. So an empty declaration name does not mean a snippet of one line.
\<close>

theorem nameless_header_context:
  assumes "h \<le> i" and "i < length lines"
    and "decl_regex_search (lines ! h)"
    and "\<forall>j. h < j \<and> j \<le> i \<longrightarrow> \<not> decl_regex_search (lines ! j)"
    and "py_in marker (lines ! i)" and "\<not> in_comment (lines ! i)"
  shows "\<exists>r \<in> set (sorries_to_process (scan_lines fs t w p lines empty_state)).
           line_num r = i + 1 \<and>
           snippet r = concat (py_slice lines h (i + 1)) \<and>
           prefix (lines ! h) (snippet r) \<and>
           (h < i \<longrightarrow> length (lines ! i) < length (snippet r)) \<and>
           (decl_name r = [] \<longleftrightarrow> \<not> keyword_names (strip (lines ! h)))"
proof -
  let ?r = "record_at fs t w p lines i"
  have em: "emits (lines ! i)" using assms(5,6) by (simp add: emits_def)
  have mem: "?r \<in> set (sorries_to_process (scan_lines fs t w p lines empty_state))"
    using assms(2) em by (rule record_at_mem)
  have ctx: "context_after lines (Suc i) = (strip (lines ! h), Suc h)"
    using assms(1,3,4) by (intro context_after_last) auto
  have ln: "line_num ?r = i + 1" by (simp add: record_at_def Let_def)
  have dn: "decl_name ?r = [] \<longleftrightarrow> \<not> keyword_names (strip (lines ! h))"
    using ctx by (simp add: record_at_def Let_def decl_name_empty_iff)
  have sn: "snippet ?r = concat (py_slice lines h (i + 1))"
    using ctx by (simp add: record_at_def Let_def)
  have pre: "prefix (lines ! h) (snippet ?r)"
    using sn slice_first[OF assms(1,2)] by simp
  have long: "length (lines ! i) < length (snippet ?r)" if "h < i"
  proof -
    have "py_slice lines h (Suc i) = lines ! h # py_slice lines (Suc h) i @ [lines ! i]"
      using that assms(2) slice_first[OF assms(1,2)] slice_last[of "Suc h" i lines] by simp
    moreover have "lines ! h \<noteq> []" using assms(3) by (rule decl_regex_search_nonempty)
    ultimately show ?thesis using sn by (cases "lines ! h") auto
  qed
  show ?thesis using mem ln dn sn pre long by blast
qed

theorem nameless_header_context_witness:
  "\<exists>r \<in> set (sorries_to_process
        (scan_lines no_files (str ''/repo'') False (str ''./A.lean'') instance_file empty_state)).
     line_num r = 2 + 1 \<and> decl_name r = [] \<and>
     snippet r = str ''instance : Inhabited Foo := by\<newline>  constructor\<newline>  sorry\<newline>''"
proof -
  have h1: "decl_regex_search (instance_file ! 0)"
    by (simp add: instance_file_def decl_regex_search_def re_match_def decl_regex_def
        decl_keyword_def isspace_def)
  have "decl_name_of (strip (instance_file ! 0)) = []"
    by (simp add: instance_file_def strip_def decl_name_of_def re_match_def name_extract_regex_def
        decl_keyword_def isspace_def name_char_def)
  then have h2: "\<not> keyword_names (strip (instance_file ! 0))"
    by (simp add: decl_name_empty_iff)
  have h3: "\<forall>j. 0 < j \<and> j \<le> 2 \<longrightarrow> \<not> decl_regex_search (instance_file ! j)"
  proof (intro allI impI)
    fix j :: nat assume "0 < j \<and> j \<le> 2"
    then have "j = 1 \<or> j = 2" by arith
    then show "\<not> decl_regex_search (instance_file ! j)"
      by (auto simp: instance_file_def decl_regex_search_def re_match_def decl_regex_def
          decl_keyword_def isspace_def)
  qed
  have h4: "py_in marker (instance_file ! 2)" "\<not> in_comment (instance_file ! 2)"
    by (simp_all add: instance_file_def in_comment_def py_find_def marker_def)
  have sl: "concat (py_slice instance_file 0 (2 + 1)) =
      str ''instance : Inhabited Foo := by\<newline>  constructor\<newline>  sorry\<newline>''"
    by (simp add: instance_file_def py_slice_def)
  have h0: "(0::nat) \<le> 2" "2 < length instance_file"
    by (simp_all add: instance_file_def)
  show ?thesis
    using nameless_header_context[of 0 2 instance_file no_files "str ''/repo''" False "str ''./A.lean''",
        OF h0 h1 h3 h4] h2
    unfolding sl by blast
qed

section \<open>The resolver is called for every record\<close>

lemma concat_readlines: "concat (readlines s) = s"
  by (induction s) (auto split: list.splits)

lemma readlines_two_marker:
  "readlines two_marker_text =
     [str ''theorem foo : True := by\<newline>'', str ''  sorry\<newline>'', str ''  sorry\<newline>'']"
  by (simp add: two_marker_text_def)

lemma emits_two_marker:
  "filter (\<lambda>i. emits (readlines two_marker_text ! i)) [0..<length (readlines two_marker_text)] = [1, 2]"
  by (simp add: readlines_two_marker emits_def in_comment_def py_find_def marker_def upt_rec_numeral)

text \<open>
  C4, as stated, fails: \<open>find_and_read_imports\<close> is called inside the branch that
  appends a record (line 281), so a file with two marker lines has it called twice and
  a file with none has it never called.
\<close>

theorem resolver_called_per_record:
  "length (resolver_calls (scan_lines no_files (str ''/repo'') False (str ''./A.lean'')
      (readlines two_marker_text) empty_state)) = 2 \<and>
   length (resolver_calls (scan_lines no_files (str ''/repo'') False (str ''./A.lean'')
      (readlines note_text) empty_state)) = 0"
proof -
  have "filter (\<lambda>i. emits (readlines note_text ! i)) [0..<length (readlines note_text)] = []"
    by (simp add: note_text_def emits_def in_comment_def py_find_def marker_def)
  then show ?thesis
    by (simp add: scan_lines_calls emits_two_marker empty_state_def)
qed

text \<open>
  C4, amended. For every file that is scanned, from whatever state the walk is in:
  \<open>find_and_read_imports\<close> is called once for each record the file adds, each time
  with the text of the file, the repository root and the web-search flag; and every
  record the file adds carries the result of that call as its imports context and the
  text of the file as its full content.
\<close>

theorem resolver_per_record:
  "\<exists>new.
     sorries_to_process (scan_lines fs t w p (readlines content) st) = sorries_to_process st @ new \<and>
     resolver_calls (scan_lines fs t w p (readlines content) st) =
       resolver_calls st @ replicate (length new) (content, t, w) \<and>
     (\<forall>r \<in> set new. imports_context r = find_and_read_imports fs content t w \<and> full_content r = content)"
proof -
  let ?is = "filter (\<lambda>i. emits (readlines content ! i)) [0..<length (readlines content)]"
  let ?new = "map (record_at fs t w p (readlines content)) ?is"
  have a: "sorries_to_process (scan_lines fs t w p (readlines content) st) = sorries_to_process st @ ?new"
    by (rule scan_lines_records)
  have b: "resolver_calls (scan_lines fs t w p (readlines content) st) =
       resolver_calls st @ replicate (length ?new) (content, t, w)"
    by (simp add: scan_lines_calls concat_readlines map_replicate_const)
  have c: "\<forall>r \<in> set ?new. imports_context r = find_and_read_imports fs content t w \<and> full_content r = content"
    by (auto simp: record_at_def Let_def concat_readlines)
  from a b c show ?thesis by blast
qed

theorem resolver_per_record_witness:
  "resolver_calls (scan_lines no_files (str ''/repo'') False (str ''./A.lean'')
      (readlines two_marker_text) empty_state) =
     replicate 2 (two_marker_text, str ''/repo'', False) \<and>
   list_all (\<lambda>r. imports_context r = find_and_read_imports no_files two_marker_text (str ''/repo'') False \<and>
                 full_content r = two_marker_text)
     (sorries_to_process (scan_lines no_files (str ''/repo'') False (str ''./A.lean'')
        (readlines two_marker_text) empty_state)) \<and>
   length (sorries_to_process (scan_lines no_files (str ''/repo'') False (str ''./A.lean'')
        (readlines two_marker_text) empty_state)) = 2"
proof -
  let ?st = "scan_lines no_files (str ''/repo'') False (str ''./A.lean'') (readlines two_marker_text) empty_state"
  have len: "length (sorries_to_process ?st) = 2"
    by (simp add: scan_lines_records emits_two_marker empty_state_def)
  from resolver_per_record[of no_files "str ''/repo''" False "str ''./A.lean''" two_marker_text empty_state]
  obtain new where n: "sorries_to_process ?st = sorries_to_process empty_state @ new"
    "resolver_calls ?st = resolver_calls empty_state @ replicate (length new) (two_marker_text, str ''/repo'', False)"
    "\<forall>r \<in> set new. imports_context r = find_and_read_imports no_files two_marker_text (str ''/repo'') False \<and>
        full_content r = two_marker_text"
    by blast
  have e: "sorries_to_process ?st = new" using n(1) by (simp add: empty_state_def)
  have l: "length new = 2" using len e by simp
  show ?thesis
    using n(2,3) l len unfolding e by (simp add: empty_state_def list_all_iff)
qed

section \<open>An unreadable file\<close>

lemma walk_files_unreadable:
  "(file, Unreadable e) \<in> set files \<Longrightarrow> endswith file (str ''.lean'') \<Longrightarrow>
   \<exists>e'. walk_files fs t w root files st = Inl e'"
proof (induction files arbitrary: st)
  case Nil
  then show ?case by simp
next
  case (Cons f files)
  obtain name content where f: "f = (name, content)" by (cases f)
  show ?case
  proof (cases "f = (file, Unreadable e)")
    case True
    with Cons.prems f show ?thesis by auto
  next
    case False
    with Cons.prems have "(file, Unreadable e) \<in> set files" by simp
    from Cons.IH[OF this Cons.prems(2)] show ?thesis
      by (cases content) (simp_all add: f)
  qed
qed

text \<open>
  C3. The walk opens and reads a file outside any handler. In a directory with a
  readable \<open>A.lean\<close> (two marker lines) and a \<open>B.lean\<close> that is not UTF-8, the
  function ends with the exception and returns no record, those of \<open>A.lean\<close>
  included; with \<open>A.lean\<close> alone it returns the records of lines 2 and 3.
\<close>

theorem unreadable_file_aborts_walk:
  "find_all_sorries no_files unreadable_tree (str ''.'') (str ''/repo'') False = Inl UnicodeDecodeError \<and>
   map line_num (projr (find_all_sorries no_files readable_tree (str ''.'') (str ''/repo'') False)) = [2, 3] \<and>
   isl (find_all_sorries no_files readable_tree (str ''.'') (str ''/repo'') False) = False"
proof -
  have "sort_key fst [(str ''B.lean'', Unreadable UnicodeDecodeError), (str ''A.lean'', Text two_marker_text)] =
        [(str ''A.lean'', Text two_marker_text), (str ''B.lean'', Unreadable UnicodeDecodeError)]"
    by simp
  then have a: "find_all_sorries no_files unreadable_tree (str ''.'') (str ''/repo'') False = Inl UnicodeDecodeError"
    by (simp add: find_all_sorries_def unreadable_tree_def endswith_def suffix_to_prefix)
  have b: "find_all_sorries no_files readable_tree (str ''.'') (str ''/repo'') False =
      Inr (sorries_to_process (scan_lines no_files (str ''/repo'') False (path_join (str ''.'') [str ''A.lean''])
         (readlines two_marker_text) empty_state))"
    by (simp add: find_all_sorries_def readable_tree_def endswith_def suffix_to_prefix)
  have c: "map line_num (sorries_to_process (scan_lines no_files (str ''/repo'') False (path_join (str ''.'') [str ''A.lean''])
         (readlines two_marker_text) empty_state)) = [2, 3]"
    by (simp add: scan_lines_records emits_two_marker empty_state_def record_at_def Let_def)
  show ?thesis using a b c by simp
qed

section \<open>Import resolution\<close>








lemma utf8_size_replicate: "utf8_size (replicate n c) = n * utf8_len c"
  by (induction n) (simp_all add: utf8_size_def)

text \<open>
  C7. The test of line 100 is \<open>len(content) < MAX_IMPORT_FILE_SIZE\<close> on the decoded
  text, which counts characters, not bytes. An imported file of 12500 times the letter
  U+00E9 has 25000 bytes, which is not below the limit, and its content is appended.
\<close>

theorem large_import_included:
  "utf8_size (replicate 12500 233) = 25000 \<and>
   \<not> utf8_size (replicate 12500 233) < MAX_IMPORT_FILE_SIZE \<and>
   find_and_read_imports big_import_fs (str ''import Big\<newline>'') (str ''/repo'') False =
     str ''\<newline>---\<newline>-- Content from: Big\<newline>---\<newline>'' @ replicate 12500 233"
proof -
  have a: "utf8_size (replicate 12500 233) = 25000"
    by (simp add: utf8_size_replicate utf8_len_def)
  have l: "splitlines (str ''import Big\<newline>'') = [str ''import Big'']"
    by (simp add: is_linebreak_def)
  have m: "re_match import_regex (str ''import Big'') = Some [str ''Big'']"
    by (simp add: re_match_def import_regex_def isspace_def)
  have r: "resolve_import big_import_fs (package_map big_import_fs (str ''/repo'')) (str ''/repo'') (str ''Big'') =
      Some (str ''/repo/Big.lean'')"
    by (simp add: resolve_import_def package_map_def big_import_fs_def relative_path_of_def
        path_join_def join2_def suffix_to_prefix Let_def)
  have e: "import_entry big_import_fs (package_map big_import_fs (str ''/repo'')) (str ''/repo'') False (str ''Big'') =
      [str ''\<newline>---\<newline>-- Content from: Big\<newline>---\<newline>'' @ replicate 12500 233]"
    unfolding import_entry_def r by (simp add: big_import_fs_def MAX_IMPORT_FILE_SIZE_def)
  have f: "find_and_read_imports big_import_fs (str ''import Big\<newline>'') (str ''/repo'') False =
     str ''\<newline>---\<newline>-- Content from: Big\<newline>---\<newline>'' @ replicate 12500 233"
    unfolding find_and_read_imports_def Let_def l using m e by simp
  show ?thesis using a f by (simp add: MAX_IMPORT_FILE_SIZE_def)
qed

section \<open>The publisher\<close>

lemma strip_Nil: "strip [] = []"
  by (simp add: strip_def)

lemma search_query_ignores_title: "search_query title repo_name = search_query title' repo_name"
  by (simp add: search_query_def)

text \<open>
  C1. The search query does not hold the title. Against a store that answers the
  query for an exact title with the open issues of that title, a run over one record
  creates its issue, and a second run over the same record, with the first issue in
  the store, creates it again.
\<close>

theorem second_run_creates_again:
  "search_query (issue_title foo_record) (str ''o/r'') =
     [34] @ str ''{title}'' @ [34] @ str '' in:title repo:o/r is:open'' \<and>
   process_sorries exact_title_gh (\<lambda>s. []) (str ''o/r'') (str ''proof wanted'') [foo_record] [] =
     \<lparr>raised = None, outcomes = [(issue_title foo_record, Created)],
      final_store = [issue_title foo_record]\<rparr> \<and>
   process_sorries exact_title_gh (\<lambda>s. []) (str ''o/r'') (str ''proof wanted'') [foo_record]
       [issue_title foo_record] =
     \<lparr>raised = None, outcomes = [(issue_title foo_record, Created)],
      final_store = [issue_title foo_record, issue_title foo_record]\<rparr>"
proof -
  have t: "issue_title foo_record = str ''Proof obligation for '' @ [96] @ str ''foo'' @ [96] @ str '' in '' @ [96] @ str ''./A.lean'' @ [96]"
    by (simp add: issue_title_def foo_record_def)
  have q: "search_query (issue_title foo_record) (str ''o/r'') =
     [34] @ str ''{title}'' @ [34] @ str '' in:title repo:o/r is:open''"
    by (simp add: search_query_def)
  have l0: "issue_list exact_title_gh [] (search_query (issue_title foo_record) (str ''o/r'')) = Exited []"
    by (simp add: exact_title_gh_def)
  have l1: "issue_list exact_title_gh [issue_title foo_record]
       (search_query (issue_title foo_record) (str ''o/r'')) = Exited []"
    by (simp add: exact_title_gh_def search_query_def t)
  have c: "\<And>store title body label. create_issue exact_title_gh store title body label =
      (Created, store @ [title])"
    by (simp add: create_issue_def exact_title_gh_def)
  have g0: "\<And>body. create_github_issue exact_title_gh [] (issue_title foo_record) body (str ''o/r'') (str ''proof wanted'') =
      Inr (Created, [issue_title foo_record])"
    unfolding create_github_issue_def l0 by (simp add: run_command_def strip_Nil c)
  have g1: "\<And>body. create_github_issue exact_title_gh [issue_title foo_record] (issue_title foo_record) body (str ''o/r'') (str ''proof wanted'') =
      Inr (Created, [issue_title foo_record, issue_title foo_record])"
    unfolding create_github_issue_def l1 by (simp add: run_command_def strip_Nil c)
  have p0: "process_sorries exact_title_gh (\<lambda>s. []) (str ''o/r'') (str ''proof wanted'') [foo_record] [] =
     \<lparr>raised = None, outcomes = [(issue_title foo_record, Created)],
      final_store = [issue_title foo_record]\<rparr>"
    unfolding process_sorries.simps Let_def g0 by simp
  have p1: "process_sorries exact_title_gh (\<lambda>s. []) (str ''o/r'') (str ''proof wanted'') [foo_record]
       [issue_title foo_record] =
     \<lparr>raised = None, outcomes = [(issue_title foo_record, Created)],
      final_store = [issue_title foo_record, issue_title foo_record]\<rparr>"
    unfolding process_sorries.simps Let_def g1 by simp
  from q p0 p1 show ?thesis by blast
qed

text \<open>
  C2. When the search fails, \<open>run_command\<close> calls \<open>sys.exit\<close>: the creation is
  not attempted, and the run ends without handling the records that remain.
\<close>

theorem failed_search_ends_run:
  "create_github_issue failing_search_gh [] (issue_title foo_record)
     (issue_body foo_record [] (str ''o/r'')) (str ''o/r'') (str ''proof wanted'') = Inl (SystemExit 1) \<and>
   process_sorries failing_search_gh (\<lambda>s. []) (str ''o/r'') (str ''proof wanted'')
     [foo_record, bar_record] [] =
     \<lparr>raised = Some (SystemExit 1), outcomes = [], final_store = []\<rparr>"
proof -
  have g: "\<And>store title body repo_name label.
      create_github_issue failing_search_gh store title body repo_name label = Inl (SystemExit 1)"
    by (simp add: create_github_issue_def failing_search_gh_def run_command_def)
  show ?thesis by (simp add: g Let_def)
qed

text \<open>
  The handler of lines 212-217 is never reached, and a failed creation is passed over.
\<close>

lemma run_command_never_CalledProcessError: "run_command result \<noteq> Inl (CalledProcessError err)"
  by (simp add: run_command_def split: proc_result.splits)

lemma creation_failure_continues:
  assumes "issue_list gh store (search_query (issue_title s) repo_name) = Exited []"
    and "issue_create gh store (issue_title s) (issue_body s (analysis s) repo_name) label = Failed err"
  shows "process_sorries gh analysis repo_name label (s # rest) store =
     (let r = process_sorries gh analysis repo_name label rest store
      in r\<lparr>outcomes := (issue_title s, CreateFailed) # outcomes r\<rparr>)"
  using assms
  by (simp add: Let_def create_github_issue_def run_command_def strip_Nil create_issue_def)

end
